theory Spec2Isabelle
  imports Complex_Main
begin

section \<open>Double precision values\<close>

text \<open>
  \<^verbatim>\<open>Double_t\<close> values.  The special values of IEEE arithmetic (the two infinities and
  NaN) are kept, since the hypothesis test compares, subtracts and takes the square root
  of likelihood values that come from the fitting engine.  Finite values are idealised as
  real numbers: rounding and the sign of zero are not represented.
\<close>

datatype Double_t = Finite real | PosInf | NegInf | NaN

text \<open>The comparison \<^verbatim>\<open>a < b\<close>: false as soon as one side is NaN.\<close>

fun dless :: "Double_t \<Rightarrow> Double_t \<Rightarrow> bool" where
  "dless NaN _ = False"
| "dless _ NaN = False"
| "dless (Finite x) (Finite y) = (x < y)"
| "dless (Finite _) PosInf = True"
| "dless (Finite _) NegInf = False"
| "dless PosInf _ = False"
| "dless NegInf NegInf = False"
| "dless NegInf _ = True"

text \<open>The comparison \<^verbatim>\<open>a <= b\<close>.\<close>

fun dle :: "Double_t \<Rightarrow> Double_t \<Rightarrow> bool" where
  "dle NaN _ = False"
| "dle _ NaN = False"
| "dle (Finite x) (Finite y) = (x \<le> y)"
| "dle (Finite _) PosInf = True"
| "dle (Finite _) NegInf = False"
| "dle PosInf PosInf = True"
| "dle PosInf _ = False"
| "dle NegInf _ = True"

text \<open>The difference \<^verbatim>\<open>a - b\<close>: equal infinities cancel to NaN.\<close>

fun dsub :: "Double_t \<Rightarrow> Double_t \<Rightarrow> Double_t" where
  "dsub NaN _ = NaN"
| "dsub _ NaN = NaN"
| "dsub (Finite x) (Finite y) = Finite (x - y)"
| "dsub (Finite _) PosInf = NegInf"
| "dsub (Finite _) NegInf = PosInf"
| "dsub PosInf PosInf = NaN"
| "dsub PosInf _ = PosInf"
| "dsub NegInf NegInf = NaN"
| "dsub NegInf _ = NegInf"

text \<open>The product \<^verbatim>\<open>a * b\<close>: zero times an infinity is NaN.\<close>

fun dsign :: "Double_t \<Rightarrow> int" where
  "dsign (Finite x) = (if x < 0 then -1 else if x = 0 then 0 else 1)"
| "dsign PosInf = 1"
| "dsign NegInf = -1"
| "dsign NaN = 0"

fun dmul :: "Double_t \<Rightarrow> Double_t \<Rightarrow> Double_t" where
  "dmul NaN _ = NaN"
| "dmul _ NaN = NaN"
| "dmul (Finite x) (Finite y) = Finite (x * y)"
| "dmul a b =
     (if dsign a * dsign b = 0 then NaN
      else if dsign a * dsign b < 0 then NegInf else PosInf)"

text \<open>\<^verbatim>\<open>std::max(a, b)\<close> is \<^verbatim>\<open>(a < b) ? b : a\<close>.\<close>

definition std_max :: "Double_t \<Rightarrow> Double_t \<Rightarrow> Double_t" where
  "std_max a b = (if dless a b then b else a)"

text \<open>\<^verbatim>\<open>sqrt\<close> of \<^verbatim>\<open><cmath>\<close>: NaN below zero.\<close>

fun dsqrt :: "Double_t \<Rightarrow> Double_t" where
  "dsqrt (Finite x) = (if x < 0 then NaN else Finite (sqrt x))"
| "dsqrt PosInf = PosInf"
| "dsqrt NegInf = NaN"
| "dsqrt NaN = NaN"

section \<open>Parameters, sets of parameters and fit results\<close>

text \<open>
  Parameter objects (\<^verbatim>\<open>RooRealVar\<close>) live in a store and are referred to by address, as
  the calculator, the model and the caller share them through pointers.  The record holds
  the fields that the calculator reads and writes; the name of an object is fixed when it
  is created and is looked up through \<open>GetName\<close> of the engine below.
\<close>

type_synonym addr = nat

record RooRealVar =
  getVal :: Double_t
  getError :: Double_t
  isConstant :: bool

type_synonym store = "addr \<Rightarrow> RooRealVar"

text \<open>
  Modelled from the spec: \<^verbatim>\<open>RooRealVar.h\<close> is not part of the sources.  The setters
  store the given value, error or constant flag in the object and change nothing else.
\<close>

definition setVal :: "addr \<Rightarrow> Double_t \<Rightarrow> store \<Rightarrow> store" where
  "setVal a v h = h(a := (h a)\<lparr>getVal := v\<rparr>)"

definition setError :: "addr \<Rightarrow> Double_t \<Rightarrow> store \<Rightarrow> store" where
  "setError a e h = h(a := (h a)\<lparr>getError := e\<rparr>)"

definition setConstant :: "addr \<Rightarrow> bool \<Rightarrow> store \<Rightarrow> store" where
  "setConstant a c h = h(a := (h a)\<lparr>isConstant := c\<rparr>)"

text \<open>
  The result of a fit owns its own copies of the floated parameters: a list of named
  parameter values, in the order of the fit, and the minimised negative log-likelihood.
\<close>

record RooFitResult =
  minNll :: Double_t
  floatParsFinal :: "(string \<times> RooRealVar) list"

text \<open>
  The arguments of \<^verbatim>\<open>fitTo\<close> and \<^verbatim>\<open>createNLL\<close>, and the function objects
  (\<^verbatim>\<open>RooAbsReal\<close>) that \<^verbatim>\<open>createNLL\<close> and \<^verbatim>\<open>createProfile\<close> build.
\<close>

datatype RooCmdArg =
    Constrain "addr list"
  | Strategy int
  | Hesse bool
  | Minos bool
  | Save bool
  | PrintLevel int
  | CloneData bool

datatype RooAbsReal =
    NLL addr addr "RooCmdArg list"
  | ProfileLL RooAbsReal "addr list"

text \<open>
  The fitting and modelling engine, which is not part of the sources, is a parameter of
  the development.  \<open>getParameters pdf data\<close> is the set of parameters of the model, or
  no set at all (a null pointer); \<open>fitTo\<close> may move every parameter of the store and
  returns a fit result or none; \<open>evaluate\<close> is \<^verbatim>\<open>getVal()\<close> of a function object, a
  \<^verbatim>\<open>const\<close> method, at the current values of the parameters.
\<close>

record RooFit =
  GetName :: "addr \<Rightarrow> string"
  getParameters :: "addr \<Rightarrow> addr \<Rightarrow> addr list option"
  fitTo :: "addr \<Rightarrow> addr \<Rightarrow> RooCmdArg list \<Rightarrow> store \<Rightarrow> RooFitResult option \<times> store"
  evaluate :: "RooAbsReal \<Rightarrow> store \<Rightarrow> Double_t"

text \<open>The calls that reach the engine are recorded in the order in which they are made.\<close>

datatype call =
    FitTo addr addr "RooCmdArg list"
  | CreateNLL addr addr "RooCmdArg list"
  | CreateProfile RooAbsReal "addr list"
  | GetVal RooAbsReal

text \<open>
  Modelled from the spec: \<^verbatim>\<open>RooArgSet.h\<close> is not part of the sources.  A parameter set
  is an ordered, name-keyed collection: \<open>find\<close> returns the first member of the given
  name, or a null pointer when there is none.
\<close>

definition RooArgSet_find :: "RooFit \<Rightarrow> addr list \<Rightarrow> string \<Rightarrow> addr option" where
  "RooArgSet_find E coll name = List.find (\<lambda>a. GetName E a = name) coll"

text \<open>
  Modelled from the spec: \<^verbatim>\<open>RooStatsUtils.h\<close> is not part of the sources.
  \<open>RemoveConstantParameters\<close> drops from a set the parameters marked constant.
\<close>

definition RemoveConstantParameters :: "store \<Rightarrow> addr list \<Rightarrow> addr list" where
  "RemoveConstantParameters h coll = filter (\<lambda>a. \<not> isConstant (h a)) coll"

text \<open>
  A member of the set handed to the interval: a parameter of the fit result, or one of
  the caller's parameter objects.
\<close>

datatype RooAbsArg = FitPar string RooRealVar | Var addr

fun argName :: "RooFit \<Rightarrow> RooAbsArg \<Rightarrow> string" where
  "argName E (FitPar n v) = n"
| "argName E (Var a) = GetName E a"

text \<open>
  Modelled from the spec: \<^verbatim>\<open>RooArgSet.h\<close> is not part of the sources.  A parameter set
  is keyed by name: \<open>add\<close> appends a member, and refuses one whose name is already
  present.
\<close>

definition RooArgSet_add :: "RooFit \<Rightarrow> RooAbsArg list \<Rightarrow> RooAbsArg \<Rightarrow> RooAbsArg list" where
  "RooArgSet_add E coll x =
     (if argName E x \<in> set (map (argName E) coll) then coll else coll @ [x])"

section \<open>The calculator\<close>

record LikelihoodInterval =
  intervalName :: string
  fLikelihoodRatio :: RooAbsReal
  fParameters :: "RooAbsArg list"
  fConfidenceLevel :: Double_t

record HypoTestResult =
  resultName :: string
  fNullPValue :: Double_t
  fAlternatePValue :: Double_t

text \<open>
  The members of the calculator (null pointers are \<open>None\<close>), together with the store
  of parameter objects and the record of engine calls.
\<close>

record state =
  fName :: string
  fPdf :: "addr option"
  fData :: "addr option"
  fPOI :: "addr list option"
  fNullParams :: "addr list option"
  fSize :: Double_t
  fFitResult :: "RooFitResult option"
  heap :: store
  calls :: "call list"

datatype crash = NullPointerDereference

definition DoReset :: "state \<Rightarrow> state" where
  "DoReset s = s\<lparr>fFitResult := None\<rparr>"

definition globalFitArgs :: "addr list \<Rightarrow> RooCmdArg list" where
  "globalFitArgs constrainedParams =
     [Constrain constrainedParams, Strategy 1, Hesse True, Save True, PrintLevel (- 1)]"

text \<open>
  \<^verbatim>\<open>DoGlobalFit\<close>.  The result of \<^verbatim>\<open>fitTo\<close> is printed before it is stored, so a fit
  that returns no result is dereferenced.
\<close>

definition DoGlobalFit :: "RooFit \<Rightarrow> state \<Rightarrow> crash + state" where
  "DoGlobalFit E s0 =
     (let s = DoReset s0 in
      case (fData s, fPdf s) of
        (Some data, Some pdf) \<Rightarrow>
          (case getParameters E pdf data of
             None \<Rightarrow> Inr s
           | Some params \<Rightarrow>
               (let constrainedParams = RemoveConstantParameters (heap s) params;
                    args = globalFitArgs constrainedParams;
                    (fit, h) = fitTo E pdf data args (heap s);
                    s1 = s\<lparr>heap := h, calls := calls s @ [FitTo pdf data args]\<rparr>
                in case fit of
                     None \<Rightarrow> Inl NullPointerDereference
                   | Some r \<Rightarrow> Inr (s1\<lparr>fFitResult := Some r\<rparr>)))
      | _ \<Rightarrow> Inr s)"

text \<open>\<^verbatim>\<open>if (!fFitResult) DoGlobalFit();\<close>\<close>

definition ensureGlobalFit :: "RooFit \<Rightarrow> state \<Rightarrow> crash + state" where
  "ensureGlobalFit E s = (if fFitResult s = None then DoGlobalFit E s else Inr s)"

text \<open>
  The loop of \<^verbatim>\<open>GetInterval\<close> that copies value and error of every fitted parameter
  into the parameter of interest of the same name.
\<close>

fun setPOIToFit :: "RooFit \<Rightarrow> addr list \<Rightarrow> (string \<times> RooRealVar) list \<Rightarrow> store \<Rightarrow> store" where
  "setPOIToFit E poi [] h = h"
| "setPOIToFit E poi (fitPar # rest) h =
     (case RooArgSet_find E poi (fst fitPar) of
        None \<Rightarrow> setPOIToFit E poi rest h
      | Some par \<Rightarrow>
          setPOIToFit E poi rest
            (setError par (getError (snd fitPar)) (setVal par (getVal (snd fitPar)) h)))"

text \<open>
  The loop of \<^verbatim>\<open>GetInterval\<close> that collects, for every parameter of interest, the
  fitted parameter of the same name, or the parameter itself when the fit has none.
\<close>

definition fitParSet_find :: "(string \<times> RooRealVar) list \<Rightarrow> string \<Rightarrow> (string \<times> RooRealVar) option" where
  "fitParSet_find fitParams name = List.find (\<lambda>p. fst p = name) fitParams"

fun collectBestPOI :: "RooFit \<Rightarrow> (string \<times> RooRealVar) list \<Rightarrow> addr list \<Rightarrow> RooAbsArg list \<Rightarrow> RooAbsArg list" where
  "collectBestPOI E fitParams [] bestPOI = bestPOI"
| "collectBestPOI E fitParams (arg # rest) bestPOI =
     (case fitParSet_find fitParams (GetName E arg) of
        Some p \<Rightarrow> collectBestPOI E fitParams rest (RooArgSet_add E bestPOI (FitPar (fst p) (snd p)))
      | None \<Rightarrow> collectBestPOI E fitParams rest (RooArgSet_add E bestPOI (Var arg)))"

definition GetInterval :: "RooFit \<Rightarrow> state \<Rightarrow> crash + (LikelihoodInterval option \<times> state)" where
  "GetInterval E s =
     (case (fData s, fPdf s, fPOI s) of
        (Some data, Some pdf, Some poi) \<Rightarrow>
          (case getParameters E pdf data of
             None \<Rightarrow> Inl NullPointerDereference
           | Some params \<Rightarrow>
               (let constrainedParams = RemoveConstantParameters (heap s) params;
                    nllArgs = [CloneData True, Constrain constrainedParams];
                    nll = NLL pdf data nllArgs;
                    profile = ProfileLL nll poi;
                    s1 = s\<lparr>calls := calls s @ [CreateNLL pdf data nllArgs, CreateProfile nll poi]\<rparr>
                in case ensureGlobalFit E s1 of
                     Inl c \<Rightarrow> Inl c
                   | Inr s2 \<Rightarrow>
                       (case fFitResult s2 of
                          None \<Rightarrow> Inr (None, s2)
                        | Some r \<Rightarrow>
                            (let fitParams = floatParsFinal r;
                                 s3 = s2\<lparr>heap := setPOIToFit E poi fitParams (heap s2)\<rparr>;
                                 s4 = s3\<lparr>calls := calls s3 @ [GetVal profile]\<rparr>;
                                 bestPOI = collectBestPOI E fitParams poi [];
                                 interval =
                                   \<lparr>intervalName = ''LikelihoodInterval_'' @ fName s,
                                    fLikelihoodRatio = profile,
                                    fParameters = bestPOI,
                                    fConfidenceLevel = dsub (Finite 1) (fSize s)\<rparr>
                             in Inr (Some interval, s4)))))
      | _ \<Rightarrow> Inr (None, s))"

section \<open>The hypothesis test\<close>

text \<open>
  The loop of \<^verbatim>\<open>GetHypoTest\<close> that saves the value of every parameter of the model
  named by a null parameter, sets it to the value of the null parameter and marks it
  constant.  The vector \<^verbatim>\<open>oldValues\<close> starts filled with zeros.
\<close>

fun freezeNullParams :: "RooFit \<Rightarrow> addr list \<Rightarrow> addr list \<Rightarrow> store \<Rightarrow> Double_t list \<times> store" where
  "freezeNullParams E constrainedParams [] h = ([], h)"
| "freezeNullParams E constrainedParams (p # poiList) h =
     (case RooArgSet_find E constrainedParams (GetName E p) of
        None \<Rightarrow>
          (let (oldValues, h') = freezeNullParams E constrainedParams poiList h
           in (Finite 0 # oldValues, h'))
      | Some mytarget \<Rightarrow>
          (let old = getVal (h mytarget);
               h1 = setConstant mytarget True (setVal mytarget (getVal (h p)) h);
               (oldValues, h') = freezeNullParams E constrainedParams poiList h1
           in (old # oldValues, h')))"

text \<open>The loop that puts the saved values back and clears the constant flags.\<close>

fun restoreNullParams :: "RooFit \<Rightarrow> addr list \<Rightarrow> (addr \<times> Double_t) list \<Rightarrow> store \<Rightarrow> store" where
  "restoreNullParams E constrainedParams [] h = h"
| "restoreNullParams E constrainedParams ((p, old) # rest) h =
     (case RooArgSet_find E constrainedParams (GetName E p) of
        None \<Rightarrow> restoreNullParams E constrainedParams rest h
      | Some mytarget \<Rightarrow>
          restoreNullParams E constrainedParams rest
            (setConstant mytarget False (setVal mytarget old h)))"

text \<open>
  \<^verbatim>\<open>existVarParams\<close>: whether a parameter that is not constant is left among the
  parameters of the likelihood.
\<close>

definition existVarParams :: "store \<Rightarrow> addr list \<Rightarrow> bool" where
  "existVarParams h constrainedParams =
     (let nuisParams = RemoveConstantParameters h constrainedParams
      in list_ex (\<lambda>myarg. \<not> isConstant (h myarg)) nuisParams)"

definition condFitArgs :: "addr list \<Rightarrow> RooCmdArg list" where
  "condFitArgs constrainedParams =
     [Constrain constrainedParams, Hesse False, Strategy 0, Minos False, Save True,
      PrintLevel (- 1)]"

text \<open>
  The value of \<^verbatim>\<open>NLLatCondMLE\<close>: the minimum of a second fit when a parameter is left
  to vary, the value of the likelihood otherwise.  The result of the second fit is used
  without a test for a null pointer.
\<close>

definition conditionalNLL :: "RooFit \<Rightarrow> addr \<Rightarrow> addr \<Rightarrow> addr list \<Rightarrow> state \<Rightarrow> crash + (Double_t \<times> state)" where
  "conditionalNLL E pdf data constrainedParams s =
     (if existVarParams (heap s) constrainedParams then
        (let args = condFitArgs constrainedParams;
             (fit2, h) = fitTo E pdf data args (heap s);
             s1 = s\<lparr>heap := h, calls := calls s @ [FitTo pdf data args]\<rparr>
         in case fit2 of
              None \<Rightarrow> Inl NullPointerDereference
            | Some r \<Rightarrow> Inr (minNll r, s1))
      else
        (let nllArgs = [CloneData True, Constrain constrainedParams];
             nll = NLL pdf data nllArgs
         in Inr (evaluate E nll (heap s),
                 s\<lparr>calls := calls s @ [CreateNLL pdf data nllArgs, GetVal nll]\<rparr>)))"

text \<open>\<^verbatim>\<open>deltaNLL = std::max(NLLatCondMLE - NLLatMLE, 0.)\<close> and \<^verbatim>\<open>sqrt(2*deltaNLL)\<close>.\<close>

definition deltaNLL :: "Double_t \<Rightarrow> Double_t \<Rightarrow> Double_t" where
  "deltaNLL NLLatMLE NLLatCondMLE = std_max (dsub NLLatCondMLE NLLatMLE) (Finite 0)"

definition testStatistic :: "Double_t \<Rightarrow> Double_t \<Rightarrow> Double_t" where
  "testStatistic NLLatMLE NLLatCondMLE = dsqrt (dmul (Finite 2) (deltaNLL NLLatMLE NLLatCondMLE))"

text \<open>
  The one-sided survival function \<open>1 - \<Phi>(z)\<close> of the standard normal distribution.
  The distribution function is given by its power series
  \<open>\<Phi>(z) = 1/2 + (\<Sum>n. (-1)^n z^(2n+1) / (2^n n! (2n+1))) / sqrt (2 pi)\<close>, the term by
  term integral of the density \<open>exp (- t^2 / 2) / sqrt (2 pi)\<close> from \<open>0\<close> to \<open>z\<close>.
\<close>

definition normal_series :: "real \<Rightarrow> nat \<Rightarrow> real" where
  "normal_series z n = (- 1) ^ n * z ^ (2 * n + 1) / (2 ^ n * fact n * real (2 * n + 1))"

definition normal_sf :: "real \<Rightarrow> real" where
  "normal_sf z = 1 / 2 - (\<Sum>n. normal_series z n) / sqrt (2 * pi)"

text \<open>
  Modelled from the spec: \<^verbatim>\<open>RooStatsUtils.h\<close> is not part of the sources.
  \<open>SignificanceToPValue\<close> converts a significance to a one-sided p-value: it is the
  survival function of the standard normal distribution applied to its argument, with
  the limits 0 and 1 at the infinities.
\<close>

fun SignificanceToPValue :: "Double_t \<Rightarrow> Double_t" where
  "SignificanceToPValue (Finite z) = Finite (normal_sf z)"
| "SignificanceToPValue PosInf = Finite 0"
| "SignificanceToPValue NegInf = Finite 1"
| "SignificanceToPValue NaN = NaN"

text \<open>
  The coefficients of the series, as a power series in \<open>z^2\<close>, and the absolute value
  of its terms at \<open>z^2 = 52/5\<close>.
\<close>

definition gaussCoeff :: "nat \<Rightarrow> real" where
  "gaussCoeff n = (- 1) ^ n / (2 ^ n * fact n * real (2 * n + 1))"


text \<open>
  The local variables of \<^verbatim>\<open>GetHypoTest\<close> once both likelihood values are known.
\<close>

record hypoLocals =
  constrainedParams :: "addr list"
  NLLatMLE :: Double_t
  poiList :: "addr list"
  oldValues :: "Double_t list"
  NLLatCondMLE :: Double_t

text \<open>
  \<^verbatim>\<open>GetHypoTest\<close> up to the computation of \<^verbatim>\<open>NLLatCondMLE\<close>: the tests of the
  inputs, the global fit, the freezing of the null parameters and the conditional
  likelihood.  No locals are returned where the function returns a null pointer.
\<close>

definition GetHypoTest_fits :: "RooFit \<Rightarrow> state \<Rightarrow> crash + (hypoLocals option \<times> state)" where
  "GetHypoTest_fits E s =
     (case (fData s, fPdf s) of
        (Some data, Some pdf) \<Rightarrow>
          (case fNullParams s of
             None \<Rightarrow> Inr (None, s)
           | Some nullParams \<Rightarrow>
               (case ensureGlobalFit E s of
                  Inl c \<Rightarrow> Inl c
                | Inr s1 \<Rightarrow>
                    (if fFitResult s1 = None then Inr (None, s1)
                     else
                       (case getParameters E pdf data of
                          None \<Rightarrow> Inl NullPointerDereference
                        | Some params \<Rightarrow>
                            (let cps = RemoveConstantParameters (heap s1) params
                             in case ensureGlobalFit E s1 of
                                  Inl c \<Rightarrow> Inl c
                                | Inr s2 \<Rightarrow>
                                    (case fFitResult s2 of
                                       None \<Rightarrow> Inl NullPointerDereference
                                     | Some r \<Rightarrow>
                                         (let (old, h) = freezeNullParams E cps nullParams (heap s2)
                                          in case conditionalNLL E pdf data cps (s2\<lparr>heap := h\<rparr>) of
                                               Inl c \<Rightarrow> Inl c
                                             | Inr (cond, s3) \<Rightarrow>
                                                 Inr (Some \<lparr>constrainedParams = cps,
                                                            NLLatMLE = minNll r,
                                                            poiList = nullParams,
                                                            oldValues = old,
                                                            NLLatCondMLE = cond\<rparr>, s3))))))))
      | _ \<Rightarrow> Inr (None, s))"

text \<open>
  \<^verbatim>\<open>GetHypoTest\<close>: the p-value of the result comes from the two likelihood values, and
  the null parameters are put back before the result is returned.
\<close>

definition GetHypoTest :: "RooFit \<Rightarrow> state \<Rightarrow> crash + (HypoTestResult option \<times> state)" where
  "GetHypoTest E s =
     (case GetHypoTest_fits E s of
        Inl c \<Rightarrow> Inl c
      | Inr (None, s1) \<Rightarrow> Inr (None, s1)
      | Inr (Some L, s1) \<Rightarrow>
          (let htr =
                 \<lparr>resultName = ''ProfileLRHypoTestResult_'' @ fName s,
                  fNullPValue = SignificanceToPValue (testStatistic (NLLatMLE L) (NLLatCondMLE L)),
                  fAlternatePValue = Finite 0\<rparr>;
               h = restoreNullParams E (constrainedParams L) (zip (poiList L) (oldValues L)) (heap s1)
           in Inr (Some htr, s1\<lparr>heap := h\<rparr>)))"

section \<open>Counting fits and observing results\<close>

text \<open>
  The unconditional fit is the call of \<^verbatim>\<open>fitTo\<close> with \<^verbatim>\<open>Strategy(1)\<close> and
  \<^verbatim>\<open>Hesse(kTRUE)\<close>; the conditional fit of the hypothesis test has neither.
\<close>

fun isGlobalFit :: "call \<Rightarrow> bool" where
  "isGlobalFit (FitTo pdf data args) = (Strategy 1 \<in> set args \<and> Hesse True \<in> set args)"
| "isGlobalFit _ = False"

definition globalFits :: "call list \<Rightarrow> nat" where
  "globalFits cs = length (filter isGlobalFit cs)"

fun isFit :: "call \<Rightarrow> bool" where
  "isFit (FitTo pdf data args) = True"
| "isFit _ = False"

text \<open>The two queries of the calculator, and whether a query returned a result.\<close>

datatype query = IntervalQuery | HypoTestQuery

definition runQuery :: "RooFit \<Rightarrow> query \<Rightarrow> state \<Rightarrow> crash + (bool \<times> state)" where
  "runQuery E q s =
     (case q of
        IntervalQuery \<Rightarrow> map_sum id (\<lambda>(r, s'). (r \<noteq> None, s')) (GetInterval E s)
      | HypoTestQuery \<Rightarrow> map_sum id (\<lambda>(r, s'). (r \<noteq> None, s')) (GetHypoTest E s))"

text \<open>
  The inputs that a query tests before anything else: the data set, the model, and the
  parameters of interest for the interval or the null parameters for the hypothesis test.
\<close>

definition hasInputs :: "query \<Rightarrow> state \<Rightarrow> bool" where
  "hasInputs q s =
     (fData s \<noteq> None \<and> fPdf s \<noteq> None \<and>
      (case q of IntervalQuery \<Rightarrow> fPOI s \<noteq> None | HypoTestQuery \<Rightarrow> fNullParams s \<noteq> None))"

text \<open>What a call left behind: the result, the state, the p-value.\<close>

definition resultOf :: "crash + ('a option \<times> state) \<Rightarrow> 'a option" where
  "resultOf x = (case x of Inl c \<Rightarrow> None | Inr (r, s) \<Rightarrow> r)"

definition stateOf :: "state \<Rightarrow> crash + ('a \<times> state) \<Rightarrow> state" where
  "stateOf s x = (case x of Inl c \<Rightarrow> s | Inr (r, s') \<Rightarrow> s')"

definition pValueOf :: "crash + (HypoTestResult option \<times> state) \<Rightarrow> Double_t option" where
  "pValueOf x = map_option fNullPValue (resultOf x)"

section \<open>A model with one parameter of interest\<close>

text \<open>
  An engine for a Gaussian likelihood \<open>10 + 26/125 (mu - 5)^2\<close> in the parameter \<open>mu\<close>
  at address 0, whose unconditional minimum is 10 at \<open>mu = 5\<close> and whose value at
  \<open>mu = 0\<close> is 15.2.  The model at address 100 has a nuisance parameter at address 1 and
  a constant parameter \<open>theta\<close> at address 2; the model at address 101 has \<open>mu\<close> alone.
  Address 10 holds the value of \<open>mu\<close> under the null hypothesis.
\<close>

definition demoName :: "addr \<Rightarrow> string" where
  "demoName a =
     (if a = 0 \<or> a = 10 then ''mu'' else if a = 1 then ''nuis''
      else if a = 2 then ''theta'' else ''x'')"

definition demoNLL :: "store \<Rightarrow> Double_t" where
  "demoNLL h = (case getVal (h 0) of Finite x \<Rightarrow> Finite (10 + 26 / 125 * (x - 5)\<^sup>2) | d \<Rightarrow> d)"

definition demoParameters :: "addr \<Rightarrow> addr \<Rightarrow> addr list option" where
  "demoParameters pdf data =
     (if pdf = 100 then Some [0, 1, 2] else if pdf = 101 then Some [0] else None)"

definition demoFitTo :: "addr \<Rightarrow> addr \<Rightarrow> RooCmdArg list \<Rightarrow> store \<Rightarrow> RooFitResult option \<times> store" where
  "demoFitTo pdf data args h =
     (let h1 = (if isConstant (h 0) then h else setError 0 (Finite 1) (setVal 0 (Finite 5) h));
          h2 = (if pdf = 100 \<and> \<not> isConstant (h 1)
                then setError 1 (Finite (1 / 2)) (setVal 1 (Finite 2) h1) else h1);
          pars = (if isConstant (h 0) then [] else [(''mu'', h2 0)]) @
                 (if pdf = 100 \<and> \<not> isConstant (h 1) then [(''nuis'', h2 1)] else [])
      in (Some \<lparr>minNll = demoNLL h2, floatParsFinal = pars\<rparr>, h2))"

definition demoEngine :: RooFit where
  "demoEngine =
     \<lparr>GetName = demoName, getParameters = demoParameters, fitTo = demoFitTo,
      evaluate = (\<lambda>f h. demoNLL h)\<rparr>"

definition demoStore :: store where
  "demoStore =
     (\<lambda>a. \<lparr>getVal = Finite 0, getError = Finite 0, isConstant = True\<rparr>)
       (0 := \<lparr>getVal = Finite 1, getError = Finite 0, isConstant = False\<rparr>,
        1 := \<lparr>getVal = Finite 0, getError = Finite 0, isConstant = False\<rparr>,
        2 := \<lparr>getVal = Finite 7, getError = Finite 0, isConstant = True\<rparr>)"

definition demoState :: "addr \<Rightarrow> state" where
  "demoState pdf =
     \<lparr>fName = ''plc'', fPdf = Some pdf, fData = Some 200, fPOI = Some [0, 2],
      fNullParams = Some [10], fSize = Finite (1 / 20), fFitResult = None,
      heap = demoStore, calls = []\<rparr>"

text \<open>An engine whose fits return no result.\<close>

definition failingEngine :: RooFit where
  "failingEngine = demoEngine\<lparr>fitTo := (\<lambda>pdf data args h. (None, h))\<rparr>"

text \<open>An engine whose second fit returns no result.\<close>

definition failingCondEngine :: RooFit where
  "failingCondEngine =
     demoEngine\<lparr>fitTo := (\<lambda>pdf data args h.
        if Hesse True \<in> set args then demoFitTo pdf data args h else (None, h))\<rparr>"

text \<open>An engine whose conditional fit ends a little below the unconditional minimum.\<close>

definition noisyEngine :: RooFit where
  "noisyEngine =
     demoEngine\<lparr>fitTo := (\<lambda>pdf data args h.
        if Hesse True \<in> set args then demoFitTo pdf data args h
        else (Some \<lparr>minNll = Finite (9999 / 1000), floatParsFinal = []\<rparr>, h))\<rparr>"

text \<open>An engine whose likelihood is infinite everywhere.\<close>

definition infiniteEngine :: RooFit where
  "infiniteEngine =
     demoEngine\<lparr>fitTo := (\<lambda>pdf data args h. (Some \<lparr>minNll = PosInf, floatParsFinal = []\<rparr>, h))\<rparr>"

text \<open>The state in which the null hypothesis puts \<open>mu\<close> at its best-fit value.\<close>

definition demoNullAtMLE :: state where
  "demoNullAtMLE = (demoState 101)\<lparr>heap := setVal 10 (Finite 5) demoStore\<rparr>"

section \<open>Evaluation of the example\<close>

lemmas eval_defs = stateOf_def pValueOf_def resultOf_def
  GetInterval_def GetHypoTest_def GetHypoTest_fits_def
  ensureGlobalFit_def DoGlobalFit_def DoReset_def Let_def RemoveConstantParameters_def
  globalFitArgs_def setVal_def setError_def setConstant_def RooArgSet_find_def
  fitParSet_find_def RooArgSet_add_def conditionalNLL_def existVarParams_def condFitArgs_def
  testStatistic_def deltaNLL_def std_max_def
  demoEngine_def demoState_def demoStore_def demoName_def demoNLL_def
  demoParameters_def demoFitTo_def

section \<open>The cache of the global fit\<close>

lemma ensureGlobalFit_cached: "fFitResult s \<noteq> None \<Longrightarrow> ensureGlobalFit E s = Inr s"
  by (auto simp: ensureGlobalFit_def)

lemma globalFits_append: "globalFits (xs @ ys) = globalFits xs + globalFits ys"
  by (simp add: globalFits_def)

lemma ensureGlobalFit_effect:
  assumes "ensureGlobalFit E s = Inr s'"
  shows "fName s' = fName s \<and> fPdf s' = fPdf s \<and> fData s' = fData s \<and> fPOI s' = fPOI s \<and>
         fNullParams s' = fNullParams s \<and> fSize s' = fSize s \<and>
         (fFitResult s \<noteq> None \<longrightarrow> s' = s) \<and>
         (fFitResult s = None \<longrightarrow>
            globalFits (calls s') = globalFits (calls s) + (if fFitResult s' = None then 0 else 1))"
  using assms
  by (auto simp: ensureGlobalFit_def DoGlobalFit_def DoReset_def Let_def globalFitArgs_def
      globalFits_def split: option.splits prod.splits if_splits)

lemma conditionalNLL_effect:
  assumes "conditionalNLL E pdf data cps s = Inr (c, s')"
  shows "fFitResult s' = fFitResult s \<and> globalFits (calls s') = globalFits (calls s)"
  using assms
  by (auto simp: conditionalNLL_def Let_def condFitArgs_def globalFits_def
      split: if_splits prod.splits option.splits)

lemma GetInterval_fit_count:
  assumes "GetInterval E s = Inr (r, s')"
  shows "(fFitResult s \<noteq> None \<longrightarrow>
            globalFits (calls s') = globalFits (calls s) \<and> fFitResult s' = fFitResult s) \<and>
         (fFitResult s = None \<longrightarrow>
            globalFits (calls s') = globalFits (calls s) + (if r = None then 0 else 1) \<and>
            (r = None \<longleftrightarrow> fFitResult s' = None))"
  using assms
  apply (simp add: GetInterval_def Let_def split: option.splits sum.splits)
  apply (auto dest!: ensureGlobalFit_effect simp: globalFits_def split: if_splits)
  done

lemma GetHypoTest_fits_fit_count:
  assumes "GetHypoTest_fits E s = Inr (r, s')"
  shows "(fFitResult s \<noteq> None \<longrightarrow>
            globalFits (calls s') = globalFits (calls s) \<and> fFitResult s' = fFitResult s) \<and>
         (fFitResult s = None \<longrightarrow>
            globalFits (calls s') = globalFits (calls s) + (if r = None then 0 else 1) \<and>
            (r = None \<longleftrightarrow> fFitResult s' = None))"
  using assms
  apply (simp add: GetHypoTest_fits_def Let_def split: option.splits sum.splits if_splits prod.splits)
  apply (auto dest!: ensureGlobalFit_effect conditionalNLL_effect split: if_splits)
  done

lemma GetHypoTest_fit_count:
  assumes "GetHypoTest E s = Inr (r, s')"
  shows "(fFitResult s \<noteq> None \<longrightarrow>
            globalFits (calls s') = globalFits (calls s) \<and> fFitResult s' = fFitResult s) \<and>
         (fFitResult s = None \<longrightarrow>
            globalFits (calls s') = globalFits (calls s) + (if r = None then 0 else 1) \<and>
            (r = None \<longleftrightarrow> fFitResult s' = None))"
  using assms
  apply (simp add: GetHypoTest_def Let_def split: option.splits sum.splits prod.splits)
  apply (auto dest!: GetHypoTest_fits_fit_count)
  done

lemma runQuery_fit_count:
  assumes "runQuery E q s = Inr (r, s')"
  shows "(fFitResult s \<noteq> None \<longrightarrow>
            globalFits (calls s') = globalFits (calls s) \<and> fFitResult s' = fFitResult s) \<and>
         (fFitResult s = None \<longrightarrow>
            globalFits (calls s') = globalFits (calls s) + (if r then 1 else 0) \<and>
            (r \<longleftrightarrow> fFitResult s' \<noteq> None))"
proof (cases q)
  case IntervalQuery
  with assms obtain x where "GetInterval E s = Inr (x, s')" and "r = (x \<noteq> None)"
    by (cases "GetInterval E s") (auto simp: runQuery_def)
  then show ?thesis using GetInterval_fit_count [of E s x s'] by auto
next
  case HypoTestQuery
  with assms obtain x where "GetHypoTest E s = Inr (x, s')" and "r = (x \<noteq> None)"
    by (cases "GetHypoTest E s") (auto simp: runQuery_def)
  then show ?thesis using GetHypoTest_fit_count [of E s x s'] by auto
qed

lemma ensureGlobalFit_returns:
  assumes "fData s = Some data" and "fPdf s = Some pdf"
    and "getParameters E pdf data \<noteq> None"
    and "\<forall>pdf data args h. fst (fitTo E pdf data args h) \<noteq> None"
  shows "\<exists>s'. ensureGlobalFit E s = Inr s' \<and> fFitResult s' \<noteq> None"
proof (cases "fFitResult s = None")
  case False
  then show ?thesis by (auto simp: ensureGlobalFit_def)
next
  case True
  from assms(3) obtain params where params: "getParameters E pdf data = Some params"
    by auto
  let ?args = "globalFitArgs (RemoveConstantParameters (heap s) params)"
  obtain fit h where fit: "fitTo E pdf data ?args (heap s) = (fit, h)"
    by (cases "fitTo E pdf data ?args (heap s)")
  with assms(4) have "fit \<noteq> None"
    by (metis fst_conv)
  then obtain r where "fit = Some r" by auto
  with True assms(1,2) params fit show ?thesis
    by (simp add: ensureGlobalFit_def DoGlobalFit_def DoReset_def Let_def)
qed

lemma conditionalNLL_returns:
  assumes "\<forall>pdf data args h. fst (fitTo E pdf data args h) \<noteq> None"
  shows "\<exists>c s'. conditionalNLL E pdf data cps s = Inr (c, s')"
proof (cases "existVarParams (heap s) cps")
  case False
  then show ?thesis by (simp add: conditionalNLL_def Let_def)
next
  case True
  obtain fit h where fit: "fitTo E pdf data (condFitArgs cps) (heap s) = (fit, h)"
    by (cases "fitTo E pdf data (condFitArgs cps) (heap s)")
  with assms have "fit \<noteq> None"
    by (metis fst_conv)
  then obtain r where "fit = Some r" by auto
  with True fit show ?thesis
    by (simp add: conditionalNLL_def Let_def)
qed

lemma GetInterval_returns:
  assumes "\<forall>pdf data. fPdf s = Some pdf \<longrightarrow> fData s = Some data \<longrightarrow> getParameters E pdf data \<noteq> None"
    and "\<forall>pdf data args h. fst (fitTo E pdf data args h) \<noteq> None"
  shows "\<exists>r s'. GetInterval E s = Inr (r, s') \<and> (r \<noteq> None) = hasInputs IntervalQuery s"
proof (cases "hasInputs IntervalQuery s")
  case False
  then show ?thesis
    by (auto simp: GetInterval_def hasInputs_def split: option.splits)
next
  case True
  then obtain data pdf poi where in1: "fData s = Some data" "fPdf s = Some pdf" "fPOI s = Some poi"
    by (auto simp: hasInputs_def)
  with assms(1) obtain params where params: "getParameters E pdf data = Some params"
    by auto
  let ?cps = "RemoveConstantParameters (heap s) params"
  let ?nll = "NLL pdf data [CloneData True, Constrain ?cps]"
  let ?s1 = "s\<lparr>calls := calls s @ [CreateNLL pdf data [CloneData True, Constrain ?cps],
                                       CreateProfile ?nll poi]\<rparr>"
  have "\<exists>s'. ensureGlobalFit E ?s1 = Inr s' \<and> fFitResult s' \<noteq> None"
    by (rule ensureGlobalFit_returns [OF _ _ _ assms(2), of _ data pdf]) (simp_all add: in1 params)
  then obtain s2 r where "ensureGlobalFit E ?s1 = Inr s2" "fFitResult s2 = Some r"
    by auto
  with in1 params True show ?thesis
    by (simp add: GetInterval_def Let_def)
qed

lemma GetHypoTest_returns:
  assumes "\<forall>pdf data. fPdf s = Some pdf \<longrightarrow> fData s = Some data \<longrightarrow> getParameters E pdf data \<noteq> None"
    and "\<forall>pdf data args h. fst (fitTo E pdf data args h) \<noteq> None"
  shows "\<exists>r s'. GetHypoTest E s = Inr (r, s') \<and> (r \<noteq> None) = hasInputs HypoTestQuery s"
proof (cases "hasInputs HypoTestQuery s")
  case False
  then show ?thesis
    by (auto simp: GetHypoTest_def GetHypoTest_fits_def hasInputs_def split: option.splits)
next
  case True
  then obtain data pdf nullParams where in1: "fData s = Some data" "fPdf s = Some pdf"
    "fNullParams s = Some nullParams"
    by (auto simp: hasInputs_def)
  with assms(1) obtain params where params: "getParameters E pdf data = Some params"
    by auto
  have "\<exists>s'. ensureGlobalFit E s = Inr s' \<and> fFitResult s' \<noteq> None"
    by (rule ensureGlobalFit_returns [OF in1(1,2) _ assms(2)]) (simp add: params)
  then obtain s1 r where s1: "ensureGlobalFit E s = Inr s1" "fFitResult s1 = Some r"
    by auto
  then have again: "ensureGlobalFit E s1 = Inr s1"
    by (simp add: ensureGlobalFit_cached)
  let ?cps = "RemoveConstantParameters (heap s1) params"
  let ?h = "snd (freezeNullParams E ?cps nullParams (heap s1))"
  from conditionalNLL_returns [OF assms(2)] obtain c s3 where
    "conditionalNLL E pdf data ?cps (s1\<lparr>heap := ?h\<rparr>) = Inr (c, s3)"
    by blast
  with in1 params s1 again True show ?thesis
    by (simp add: GetHypoTest_def GetHypoTest_fits_def Let_def split_def)
qed

lemma runQuery_returns:
  assumes "\<forall>pdf data. fPdf s = Some pdf \<longrightarrow> fData s = Some data \<longrightarrow> getParameters E pdf data \<noteq> None"
    and "\<forall>pdf data args h. fst (fitTo E pdf data args h) \<noteq> None"
  shows "\<exists>s'. runQuery E q s = Inr (hasInputs q s, s')"
proof (cases q)
  case IntervalQuery
  with GetInterval_returns [OF assms] show ?thesis
    by (auto simp: runQuery_def)
next
  case HypoTestQuery
  with GetHypoTest_returns [OF assms] show ?thesis
    by (auto simp: runQuery_def)
qed

lemma conditionalNLL_frame:
  assumes "conditionalNLL E pdf data cps s = Inr (c, s')"
  shows "fPdf s' = fPdf s \<and> fData s' = fData s \<and> fPOI s' = fPOI s \<and> fNullParams s' = fNullParams s"
  using assms
  by (auto simp: conditionalNLL_def Let_def split: if_splits prod.splits option.splits)

lemma runQuery_frame:
  assumes "runQuery E q s = Inr (r, s')"
  shows "fPdf s' = fPdf s \<and> fData s' = fData s \<and> fPOI s' = fPOI s \<and> fNullParams s' = fNullParams s"
proof (cases q)
  case IntervalQuery
  with assms obtain x where "GetInterval E s = Inr (x, s')"
    by (cases "GetInterval E s") (auto simp: runQuery_def)
  then show ?thesis
    by (auto simp: GetInterval_def Let_def split: option.splits sum.splits
        dest!: ensureGlobalFit_effect)
next
  case HypoTestQuery
  with assms obtain x where x: "GetHypoTest E s = Inr (x, s')"
    by (cases "GetHypoTest E s") (auto simp: runQuery_def)
  then obtain y s3 where fits: "GetHypoTest_fits E s = Inr (y, s3)"
    and s3: "fPdf s' = fPdf s3 \<and> fData s' = fData s3 \<and> fPOI s' = fPOI s3 \<and>
             fNullParams s' = fNullParams s3"
    by (auto simp: GetHypoTest_def Let_def split: sum.splits prod.splits option.splits)
  from fits have "fPdf s3 = fPdf s \<and> fData s3 = fData s \<and> fPOI s3 = fPOI s \<and>
      fNullParams s3 = fNullParams s"
    by (auto simp: GetHypoTest_fits_def Let_def split: option.splits sum.splits if_splits prod.splits
        dest!: ensureGlobalFit_effect conditionalNLL_frame)
  with s3 show ?thesis by simp
qed

lemma runQuery_state:
  "runQuery E IntervalQuery s = Inr (r, s') \<Longrightarrow> stateOf s (GetInterval E s) = s'"
  "runQuery E HypoTestQuery s = Inr (r, s') \<Longrightarrow> stateOf s (GetHypoTest E s) = s'"
  by (cases "GetInterval E s"; auto simp: runQuery_def stateOf_def)
     (cases "GetHypoTest E s"; auto simp: runQuery_def stateOf_def)

text \<open>
  C1, as amended.  Two queries, each of them \<^verbatim>\<open>GetInterval\<close> or \<^verbatim>\<open>GetHypoTest\<close>,
  run one after the other on a calculator whose cache is empty, with no reset in
  between, and with an engine that returns the parameters of the model and a result for
  every fit.  Both queries return, each with a result exactly when its inputs are
  present.  A first query that has its inputs runs the unconditional fit once and fills
  the cache, and the second query runs no unconditional fit and leaves the cached result
  as it is.  When only the second query has its inputs, it is the one that runs the fit,
  once.  When neither has its inputs, no fit is run.
\<close>

theorem global_fit_performed_once:
  assumes "fFitResult s = None"
    and "\<forall>pdf data. fPdf s = Some pdf \<longrightarrow> fData s = Some data \<longrightarrow> getParameters E pdf data \<noteq> None"
    and "\<forall>pdf data args h. fst (fitTo E pdf data args h) \<noteq> None"
  shows "\<exists>s1 s2.
           runQuery E q1 s = Inr (hasInputs q1 s, s1) \<and>
           runQuery E q2 s1 = Inr (hasInputs q2 s, s2) \<and>
           globalFits (calls s1) = globalFits (calls s) + (if hasInputs q1 s then 1 else 0) \<and>
           globalFits (calls s2) =
             globalFits (calls s1) + (if \<not> hasInputs q1 s \<and> hasInputs q2 s then 1 else 0) \<and>
           globalFits (calls s2) =
             globalFits (calls s) + (if hasInputs q1 s \<or> hasInputs q2 s then 1 else 0) \<and>
           (hasInputs q1 s \<longrightarrow> fFitResult s1 \<noteq> None \<and> fFitResult s2 = fFitResult s1)"
proof -
  from runQuery_returns [OF assms(2,3)] obtain s1 where
    q1: "runQuery E q1 s = Inr (hasInputs q1 s, s1)"
    by blast
  note f1 = runQuery_frame [OF q1]
  have par1: "\<forall>pdf data. fPdf s1 = Some pdf \<longrightarrow> fData s1 = Some data \<longrightarrow>
      getParameters E pdf data \<noteq> None"
    using assms(2) f1 by simp
  have same: "hasInputs q2 s1 = hasInputs q2 s"
    using f1 by (cases q2) (simp_all add: hasInputs_def)
  from runQuery_returns [OF par1 assms(3), of q2] same obtain s2 where
    q2: "runQuery E q2 s1 = Inr (hasInputs q2 s, s2)"
    by auto
  note c1 = runQuery_fit_count [OF q1]
  note c2 = runQuery_fit_count [OF q2]
  have "globalFits (calls s1) = globalFits (calls s) + (if hasInputs q1 s then 1 else 0) \<and>
        globalFits (calls s2) =
          globalFits (calls s1) + (if \<not> hasInputs q1 s \<and> hasInputs q2 s then 1 else 0) \<and>
        globalFits (calls s2) =
          globalFits (calls s) + (if hasInputs q1 s \<or> hasInputs q2 s then 1 else 0) \<and>
        (hasInputs q1 s \<longrightarrow> fFitResult s1 \<noteq> None \<and> fFitResult s2 = fFitResult s1)"
    using c1 c2 assms(1) by (cases "fFitResult s1 = None") auto
  with q1 q2 show ?thesis by blast
qed

text \<open>
  At the example an interval query followed by a hypothesis test runs the unconditional
  fit once, in the first query.
\<close>

theorem global_fit_performed_once_witness:
  "hasInputs IntervalQuery (demoState 100) \<and> hasInputs HypoTestQuery (demoState 100) \<and>
   globalFits (calls (stateOf (demoState 100) (GetInterval demoEngine (demoState 100)))) = 1 \<and>
   globalFits (calls (stateOf (demoState 100) (GetHypoTest demoEngine
      (stateOf (demoState 100) (GetInterval demoEngine (demoState 100)))))) = 1"
proof -
  let ?s = "demoState 100"
  have a: "fFitResult ?s = None"
    by (simp add: demoState_def)
  have b: "\<forall>pdf data. fPdf ?s = Some pdf \<longrightarrow> fData ?s = Some data \<longrightarrow>
      getParameters demoEngine pdf data \<noteq> None"
    by (simp add: demoState_def demoEngine_def demoParameters_def)
  have c: "\<forall>pdf data args h. fst (fitTo demoEngine pdf data args h) \<noteq> None"
    by (simp add: demoEngine_def demoFitTo_def Let_def)
  have i: "hasInputs IntervalQuery ?s" "hasInputs HypoTestQuery ?s"
    by (simp_all add: hasInputs_def demoState_def)
  have z: "globalFits (calls ?s) = 0"
    by (simp add: demoState_def globalFits_def)
  from global_fit_performed_once [OF a b c, of IntervalQuery HypoTestQuery]
  obtain s1 s2 where q: "runQuery demoEngine IntervalQuery ?s = Inr (hasInputs IntervalQuery ?s, s1)"
    "runQuery demoEngine HypoTestQuery s1 = Inr (hasInputs HypoTestQuery ?s, s2)"
    and n: "globalFits (calls s1) = globalFits (calls ?s) + (if hasInputs IntervalQuery ?s then 1 else 0)"
    "globalFits (calls s2) =
       globalFits (calls ?s) + (if hasInputs IntervalQuery ?s \<or> hasInputs HypoTestQuery ?s then 1 else 0)"
    by blast
  have s1: "stateOf ?s (GetInterval demoEngine ?s) = s1"
    by (rule runQuery_state(1) [OF q(1)])
  have "stateOf s1 (GetHypoTest demoEngine s1) = s2"
    by (rule runQuery_state(2) [OF q(2)])
  moreover have "stateOf ?s (GetHypoTest demoEngine s1) = stateOf s1 (GetHypoTest demoEngine s1)"
    using q(2) by (cases "GetHypoTest demoEngine s1") (auto simp: runQuery_def stateOf_def)
  ultimately have s2: "stateOf ?s (GetHypoTest demoEngine s1) = s2"
    by simp
  from n i z show ?thesis
    unfolding s1 s2 by simp
qed

text \<open>
  The claim as it is written speaks of any two queries.  Two interval queries on a
  calculator without parameters of interest both return, and no fit is run at all.
\<close>

theorem global_fit_missing_input_counterexample:
  "fFitResult ((demoState 100)\<lparr>fPOI := None\<rparr>) = None \<and>
   runQuery demoEngine IntervalQuery ((demoState 100)\<lparr>fPOI := None\<rparr>) =
     Inr (False, (demoState 100)\<lparr>fPOI := None\<rparr>) \<and>
   globalFits (calls (stateOf (demoState 100)
     (GetInterval demoEngine (stateOf (demoState 100)
       (GetInterval demoEngine ((demoState 100)\<lparr>fPOI := None\<rparr>)))))) = 0"
  by (simp add: runQuery_def GetInterval_def stateOf_def demoState_def globalFits_def)

section \<open>Missing inputs\<close>

text \<open>
  C8.  \<^verbatim>\<open>GetInterval\<close> returns a null pointer when the data set, the model or the set
  of parameters of interest is missing, and \<^verbatim>\<open>GetHypoTest\<close> does when the data set,
  the model or the set of null parameters is missing.  In both cases the state, with its
  store of parameters, its cache and its record of engine calls, is the one before the
  call: nothing was fitted and nothing was changed.
\<close>

theorem missing_input_returns_empty:
  "(fData s = None \<or> fPdf s = None \<or> fPOI s = None \<longrightarrow> GetInterval E s = Inr (None, s)) \<and>
   (fData s = None \<or> fPdf s = None \<or> fNullParams s = None \<longrightarrow> GetHypoTest E s = Inr (None, s))"
  by (auto simp: GetInterval_def GetHypoTest_def GetHypoTest_fits_def split: option.splits)

theorem missing_input_returns_empty_witness:
  "GetInterval demoEngine ((demoState 100)\<lparr>fPOI := None\<rparr>) = Inr (None, (demoState 100)\<lparr>fPOI := None\<rparr>) \<and>
   GetHypoTest demoEngine ((demoState 100)\<lparr>fNullParams := None\<rparr>) =
     Inr (None, (demoState 100)\<lparr>fNullParams := None\<rparr>) \<and>
   filter isFit (calls (stateOf (demoState 100)
     (GetInterval demoEngine ((demoState 100)\<lparr>fPOI := None\<rparr>)))) = []"
  using missing_input_returns_empty [of "(demoState 100)\<lparr>fPOI := None\<rparr>" demoEngine]
    missing_input_returns_empty [of "(demoState 100)\<lparr>fNullParams := None\<rparr>" demoEngine]
  by (simp add: stateOf_def demoState_def)

section \<open>A fit that returns no result\<close>

text \<open>
  C2.  When \<^verbatim>\<open>fitTo\<close> returns no result, \<^verbatim>\<open>DoGlobalFit\<close> prints the result before
  storing it, so \<^verbatim>\<open>GetInterval\<close> and \<^verbatim>\<open>GetHypoTest\<close> end in the dereference of a
  null pointer and return nothing.  When only the second fit of \<^verbatim>\<open>GetHypoTest\<close> returns
  no result, the call ends in the same way, after the null parameters were frozen.
\<close>

theorem failed_fit_is_dereferenced:
  "GetInterval failingEngine (demoState 100) = Inl NullPointerDereference \<and>
   GetHypoTest failingEngine (demoState 100) = Inl NullPointerDereference \<and>
   GetHypoTest failingCondEngine (demoState 100) = Inl NullPointerDereference"
  by (simp add: failingEngine_def failingCondEngine_def eval_defs)

section \<open>The null parameters\<close>

lemma find_name: "RooArgSet_find E cps n = Some t \<Longrightarrow> GetName E t = n \<and> t \<in> set cps"
  by (auto simp: RooArgSet_find_def find_Some_iff)

lemma GetHypoTest_fits_locals:
  assumes "GetHypoTest_fits E s = Inr (Some L, s3)"
  shows "\<exists>data pdf nullParams s1 r params.
           fData s = Some data \<and> fPdf s = Some pdf \<and> fNullParams s = Some nullParams \<and>
           ensureGlobalFit E s = Inr s1 \<and> fFitResult s1 = Some r \<and>
           getParameters E pdf data = Some params \<and>
           constrainedParams L = RemoveConstantParameters (heap s1) params \<and>
           NLLatMLE L = minNll r \<and> poiList L = nullParams \<and>
           oldValues L = fst (freezeNullParams E (constrainedParams L) nullParams (heap s1)) \<and>
           conditionalNLL E pdf data (constrainedParams L)
             (s1\<lparr>heap := snd (freezeNullParams E (constrainedParams L) nullParams (heap s1))\<rparr>)
             = Inr (NLLatCondMLE L, s3)"
proof -
  from assms obtain data pdf nullParams where in1: "fData s = Some data" "fPdf s = Some pdf"
    "fNullParams s = Some nullParams"
    by (auto simp: GetHypoTest_fits_def split: option.splits)
  from assms in1 obtain s1 where s1: "ensureGlobalFit E s = Inr s1"
    by (auto simp: GetHypoTest_fits_def split: sum.splits)
  from assms in1 s1 obtain r where r: "fFitResult s1 = Some r"
    by (auto simp: GetHypoTest_fits_def split: if_splits)
  then have again: "ensureGlobalFit E s1 = Inr s1"
    by (simp add: ensureGlobalFit_cached)
  from assms in1 s1 r obtain params where params: "getParameters E pdf data = Some params"
    by (auto simp: GetHypoTest_fits_def split: option.splits)
  show ?thesis
    using assms in1 s1 r again params
    by (auto simp: GetHypoTest_fits_def Let_def split: prod.splits sum.splits)
qed

lemma GetHypoTest_result:
  assumes "GetHypoTest E s = Inr (Some htr, s')"
  shows "\<exists>L s3. GetHypoTest_fits E s = Inr (Some L, s3) \<and>
           fNullPValue htr = SignificanceToPValue (testStatistic (NLLatMLE L) (NLLatCondMLE L)) \<and>
           s' = s3\<lparr>heap := restoreNullParams E (constrainedParams L)
                                (zip (poiList L) (oldValues L)) (heap s3)\<rparr>"
  using assms
  by (auto simp: GetHypoTest_def Let_def split: sum.splits prod.splits option.splits)

lemma freeze_oldValues:
  assumes "distinct (map (GetName E) nps)"
  shows "fst (freezeNullParams E cps nps h) =
         map (\<lambda>p. case RooArgSet_find E cps (GetName E p) of
                     None \<Rightarrow> Finite 0 | Some t \<Rightarrow> getVal (h t)) nps"
  using assms
proof (induction nps arbitrary: h)
  case Nil
  then show ?case by simp
next
  case (Cons p nps)
  show ?case
  proof (cases "RooArgSet_find E cps (GetName E p)")
    case None
    with Cons show ?thesis by (simp add: split_def)
  next
    case (Some t)
    let ?h1 = "setConstant t True (setVal t (getVal (h p)) h)"
    have untouched: "getVal (?h1 t') = getVal (h t')"
      if "p' \<in> set nps" "RooArgSet_find E cps (GetName E p') = Some t'" for p' t'
    proof -
      have "GetName E t' = GetName E p'" using that(2) by (simp add: find_name)
      moreover have "GetName E t = GetName E p" using Some by (simp add: find_name)
      moreover have "GetName E p' \<noteq> GetName E p"
        using Cons.prems that(1) by (auto simp: image_iff)
      ultimately have "t' \<noteq> t" by auto
      then show ?thesis by (simp add: setConstant_def setVal_def)
    qed
    have "fst (freezeNullParams E cps nps ?h1) =
          map (\<lambda>p. case RooArgSet_find E cps (GetName E p) of
                     None \<Rightarrow> Finite 0 | Some t \<Rightarrow> getVal (?h1 t)) nps"
      using Cons by simp
    also have "\<dots> = map (\<lambda>p. case RooArgSet_find E cps (GetName E p) of
                     None \<Rightarrow> Finite 0 | Some t \<Rightarrow> getVal (h t)) nps"
      by (rule map_cong) (auto split: option.splits simp: untouched)
    finally show ?thesis using Some by (simp add: split_def Let_def)
  qed
qed

lemma restore_untouched:
  assumes "\<forall>(p, v) \<in> set ps. RooArgSet_find E cps (GetName E p) \<noteq> Some t"
  shows "restoreNullParams E cps ps h t = h t"
  using assms
  by (induction ps arbitrary: h) (auto simp: setConstant_def setVal_def split: option.splits)

lemma restore_target:
  assumes "distinct (map (\<lambda>(p, v). GetName E p) ps)"
    and "(p, v) \<in> set ps"
    and "RooArgSet_find E cps (GetName E p) = Some t"
  shows "getVal (restoreNullParams E cps ps h t) = v \<and> \<not> isConstant (restoreNullParams E cps ps h t)"
  using assms
proof (induction ps arbitrary: h)
  case Nil
  then show ?case by simp
next
  case (Cons x ps)
  obtain p' v' where x: "x = (p', v')" by (cases x)
  show ?case
  proof (cases "(p, v) = x")
    case True
    have "\<forall>(q, w) \<in> set ps. RooArgSet_find E cps (GetName E q) \<noteq> Some t"
    proof (clarify)
      fix q w assume "(q, w) \<in> set ps" "RooArgSet_find E cps (GetName E q) = Some t"
      then have "GetName E q = GetName E p" using Cons.prems(3) by (metis find_name)
      moreover have "GetName E q \<noteq> GetName E p"
        using Cons.prems(1) True \<open>(q, w) \<in> set ps\<close> by force
      ultimately show False by simp
    qed
    then show ?thesis using True Cons.prems(3) x
      by (simp add: restore_untouched setConstant_def setVal_def)
  next
    case False
    then have "(p, v) \<in> set ps" using Cons.prems(2) by simp
    moreover have "distinct (map (\<lambda>(p, v). GetName E p) ps)" using Cons.prems(1) by simp
    ultimately show ?thesis using Cons.IH Cons.prems(3) x
      by (simp split: option.splits)
  qed
qed

text \<open>
  C3, as amended.  When \<^verbatim>\<open>GetHypoTest\<close> returns a result and the null parameters have
  distinct names, every parameter of the model that a null parameter names among the
  free parameters ends with the value it had when it was frozen, that is its value after
  the global-fit step, and with its constant flag cleared, in the branch with a second fit
  as in the branch without.  When the call found a cached fit result, that value is the
  value before the call, and the constant flag is the one before the call.
\<close>

theorem null_parameters_restored:
  assumes "GetHypoTest E s = Inr (Some htr, s')"
    and "fData s = Some data" and "fPdf s = Some pdf" and "fNullParams s = Some nullParams"
    and "getParameters E pdf data = Some params"
    and "ensureGlobalFit E s = Inr s1"
    and "distinct (map (GetName E) nullParams)"
    and "p \<in> set nullParams"
    and "RooArgSet_find E (RemoveConstantParameters (heap s1) params) (GetName E p) = Some t"
  shows "getVal (heap s' t) = getVal (heap s1 t) \<and> \<not> isConstant (heap s' t) \<and>
         (fFitResult s \<noteq> None \<longrightarrow>
            getVal (heap s' t) = getVal (heap s t) \<and> isConstant (heap s' t) = isConstant (heap s t))"
proof -
  from GetHypoTest_result [OF assms(1)] obtain L s3 where
    fits: "GetHypoTest_fits E s = Inr (Some L, s3)" and
    s': "s' = s3\<lparr>heap := restoreNullParams E (constrainedParams L)
                                (zip (poiList L) (oldValues L)) (heap s3)\<rparr>"
    by blast
  let ?cps = "RemoveConstantParameters (heap s1) params"
  from GetHypoTest_fits_locals [OF fits] assms(2-6)
  have L: "constrainedParams L = ?cps" "poiList L = nullParams"
    "oldValues L = fst (freezeNullParams E ?cps nullParams (heap s1))"
    by auto
  let ?f = "\<lambda>p. case RooArgSet_find E ?cps (GetName E p) of
                     None \<Rightarrow> Finite 0 | Some t \<Rightarrow> getVal (heap s1 t)"
  have old: "oldValues L = map ?f nullParams"
    using L(3) freeze_oldValues [OF assms(7)] by simp
  have zip: "zip (poiList L) (oldValues L) = map (\<lambda>p. (p, ?f p)) nullParams"
    unfolding L(2) old by (simp add: zip_map2 zip_same_conv_map)
  have d: "distinct (map (\<lambda>(p, v). GetName E p) (map (\<lambda>p. (p, ?f p)) nullParams))"
    using assms(7) by (simp add: comp_def)
  have m: "(p, ?f p) \<in> set (map (\<lambda>p. (p, ?f p)) nullParams)"
    using assms(8) by simp
  have "?f p = getVal (heap s1 t)" using assms(9) by simp
  with restore_target [OF d m assms(9), of "heap s3"]
  have main: "getVal (heap s' t) = getVal (heap s1 t) \<and> \<not> isConstant (heap s' t)"
    by (simp add: s' L(1) zip)
  have "t \<in> set ?cps" using assms(9) by (simp add: find_name)
  then have free: "\<not> isConstant (heap s1 t)" by (simp add: RemoveConstantParameters_def)
  have "fFitResult s \<noteq> None \<Longrightarrow> s1 = s"
    using assms(6) by (simp add: ensureGlobalFit_cached)
  with main free show ?thesis by auto
qed

text \<open>
  The amended statement at the example, first on an empty cache and then, after an
  interval query, on a cached fit result: \<open>mu\<close> ends at 5, its value after the global
  fit, and is free again.
\<close>

theorem null_parameters_restored_witness:
  "getVal (heap (stateOf (demoState 100) (GetHypoTest demoEngine (demoState 100))) 0) = Finite 5 \<and>
   \<not> isConstant (heap (stateOf (demoState 100) (GetHypoTest demoEngine (demoState 100))) 0) \<and>
   getVal (heap (stateOf (demoState 100) (GetHypoTest demoEngine
      (stateOf (demoState 100) (GetInterval demoEngine (demoState 100))))) 0) =
   getVal (heap (stateOf (demoState 100) (GetInterval demoEngine (demoState 100))) 0)"
proof -
  let ?s = "demoState 100"
  let ?r = "GetHypoTest demoEngine ?s"
  let ?c = "stateOf ?s (GetInterval demoEngine ?s)"
  let ?rc = "GetHypoTest demoEngine ?c"
  have a1: "?r = Inr (Some (the (resultOf ?r)), stateOf ?s ?r)"
    by (simp add: eval_defs)
  have a2: "fData ?s = Some 200" "fPdf ?s = Some 100" "fNullParams ?s = Some [10]"
    by (simp_all add: demoState_def)
  have a3: "getParameters demoEngine 100 200 = Some [0, 1, 2]"
    by (simp add: demoEngine_def demoParameters_def)
  have a4: "ensureGlobalFit demoEngine ?s = Inr (projr (ensureGlobalFit demoEngine ?s))"
    by (simp add: eval_defs)
  have a5: "distinct (map (GetName demoEngine) [10])" "(10::nat) \<in> set [10]"
    by simp_all
  have a6: "RooArgSet_find demoEngine
      (RemoveConstantParameters (heap (projr (ensureGlobalFit demoEngine ?s))) [0, 1, 2])
      (GetName demoEngine 10) = Some 0"
    by (simp add: eval_defs)
  have b1: "?rc = Inr (Some (the (resultOf ?rc)), stateOf ?s ?rc)"
    by (simp add: eval_defs)
  have b2: "fData ?c = Some 200" "fPdf ?c = Some 100" "fNullParams ?c = Some [10]"
    by (simp_all add: eval_defs)
  have b4: "ensureGlobalFit demoEngine ?c = Inr ?c" "fFitResult ?c \<noteq> None"
    by (simp_all add: eval_defs)
  have b6: "RooArgSet_find demoEngine (RemoveConstantParameters (heap ?c) [0, 1, 2])
      (GetName demoEngine 10) = Some 0"
    by (simp add: eval_defs)
  have v: "getVal (heap (projr (ensureGlobalFit demoEngine ?s)) 0) = Finite 5"
    by (simp add: eval_defs)
  from null_parameters_restored [OF a1 a2 a3 a4 a5 a6]
    null_parameters_restored [OF b1 b2 a3 b4(1) a5 b6] b4(2) v
  show ?thesis by simp
qed

text \<open>
  The claim as it is written asks for the value before the call.  At the example the
  parameter \<open>mu\<close> is free, is named by the null parameter at address 10 and has the value 1
  before the call; the global fit of the call moves it to 5, which is the value that is
  saved and put back.
\<close>

theorem null_parameters_pre_call_counterexample:
  "fNullParams (demoState 100) = Some [10] \<and>
   RooArgSet_find demoEngine (RemoveConstantParameters (heap (demoState 100)) [0, 1, 2])
     (GetName demoEngine 10) = Some 0 \<and>
   getVal (heap (demoState 100) 0) = Finite 1 \<and>
   resultOf (GetHypoTest demoEngine (demoState 100)) \<noteq> None \<and>
   getVal (heap (stateOf (demoState 100) (GetHypoTest demoEngine (demoState 100))) 0) = Finite 5"
  by (simp add: eval_defs)

section \<open>The test statistic and the p-value\<close>

lemma std_max_clamp: "dless c m \<Longrightarrow> std_max (dsub c m) (Finite 0) = Finite 0"
  by (cases c; cases m) (auto simp: std_max_def)

lemma std_max_clamp_le:
  "dle c m \<Longrightarrow> \<not> (c = PosInf \<and> m = PosInf) \<Longrightarrow> \<not> (c = NegInf \<and> m = NegInf) \<Longrightarrow>
   std_max (dsub c m) (Finite 0) = Finite 0"
  by (cases c; cases m) (auto simp: std_max_def)

lemma normal_sf_zero: "normal_sf 0 = 1 / 2"
  by (simp add: normal_sf_def normal_series_def)

lemma GetHypoTest_of_fits:
  assumes "GetHypoTest_fits E s = Inr (Some L, s3)"
  shows "pValueOf (GetHypoTest E s) =
           Some (SignificanceToPValue (testStatistic (NLLatMLE L) (NLLatCondMLE L)))"
  using assms by (simp add: GetHypoTest_def pValueOf_def resultOf_def Let_def)

text \<open>
  C4.  Whenever \<^verbatim>\<open>GetHypoTest\<close> has its two likelihood values and the conditional one
  compares below the unconditional one, \<^verbatim>\<open>deltaNLL\<close> is clamped to 0 and the test
  statistic \<^verbatim>\<open>sqrt(2*deltaNLL)\<close> is the number 0: it is neither negative nor NaN.  The
  p-value returned is the survival function at 0.
\<close>

theorem clamped_statistic_is_zero:
  assumes "GetHypoTest_fits E s = Inr (Some L, s3)"
    and "dless (NLLatCondMLE L) (NLLatMLE L)"
  shows "deltaNLL (NLLatMLE L) (NLLatCondMLE L) = Finite 0 \<and>
         testStatistic (NLLatMLE L) (NLLatCondMLE L) = Finite 0 \<and>
         pValueOf (GetHypoTest E s) = Some (SignificanceToPValue (Finite 0))"
  using GetHypoTest_of_fits [OF assms(1)] std_max_clamp [OF assms(2)]
  by (simp add: testStatistic_def deltaNLL_def)

theorem clamped_statistic_is_zero_witness:
  "map_option (\<lambda>L. (NLLatMLE L, NLLatCondMLE L))
     (resultOf (GetHypoTest_fits noisyEngine (demoState 100))) =
     Some (Finite 10, Finite (9999 / 1000)) \<and>
   testStatistic (Finite 10) (Finite (9999 / 1000)) = Finite 0 \<and>
   pValueOf (GetHypoTest noisyEngine (demoState 100)) = Some (SignificanceToPValue (Finite 0))"
proof -
  let ?s = "demoState 100"
  let ?r = "GetHypoTest_fits noisyEngine ?s"
  have a: "?r = Inr (Some (the (resultOf ?r)), stateOf ?s ?r)"
    by (simp add: noisyEngine_def eval_defs)
  have v: "NLLatMLE (the (resultOf ?r)) = Finite 10"
    "NLLatCondMLE (the (resultOf ?r)) = Finite (9999 / 1000)"
    by (simp_all add: noisyEngine_def eval_defs)
  have b: "dless (NLLatCondMLE (the (resultOf ?r))) (NLLatMLE (the (resultOf ?r)))"
    by (simp add: v)
  have e: "map_option (\<lambda>L. (NLLatMLE L, NLLatCondMLE L)) (resultOf ?r) =
      Some (Finite 10, Finite (9999 / 1000))"
    by (simp add: noisyEngine_def eval_defs)
  from clamped_statistic_is_zero [OF a b] e show ?thesis
    by (simp add: v)
qed

text \<open>
  C10, as amended.  Whenever the conditional likelihood value compares less than or equal
  to the unconditional one, and the two are not the same infinity, the p-value returned
  by \<^verbatim>\<open>GetHypoTest\<close> is exactly 1/2, the survival function at 0.
\<close>

theorem p_value_half_when_not_above:
  assumes "GetHypoTest_fits E s = Inr (Some L, s3)"
    and "dle (NLLatCondMLE L) (NLLatMLE L)"
    and "\<not> (NLLatCondMLE L = PosInf \<and> NLLatMLE L = PosInf)"
    and "\<not> (NLLatCondMLE L = NegInf \<and> NLLatMLE L = NegInf)"
  shows "pValueOf (GetHypoTest E s) = Some (Finite (1 / 2))"
  using GetHypoTest_of_fits [OF assms(1)] std_max_clamp_le [OF assms(2-4)]
  by (simp add: testStatistic_def deltaNLL_def normal_sf_zero)

theorem p_value_half_when_not_above_witness:
  "map_option (\<lambda>L. (NLLatMLE L, NLLatCondMLE L))
     (resultOf (GetHypoTest_fits demoEngine demoNullAtMLE)) = Some (Finite 10, Finite 10) \<and>
   pValueOf (GetHypoTest demoEngine demoNullAtMLE) = Some (Finite (1 / 2))"
proof -
  let ?r = "GetHypoTest_fits demoEngine demoNullAtMLE"
  have a: "?r = Inr (Some (the (resultOf ?r)), stateOf demoNullAtMLE ?r)"
    by (simp add: demoNullAtMLE_def eval_defs)
  have v: "NLLatMLE (the (resultOf ?r)) = Finite 10"
    "NLLatCondMLE (the (resultOf ?r)) = Finite 10"
    by (simp_all add: demoNullAtMLE_def eval_defs)
  have e: "map_option (\<lambda>L. (NLLatMLE L, NLLatCondMLE L)) (resultOf ?r) =
      Some (Finite 10, Finite 10)"
    by (simp add: demoNullAtMLE_def eval_defs)
  from p_value_half_when_not_above [OF a] e show ?thesis
    by (simp add: v)
qed

text \<open>
  The claim as it is written covers every pair of values that compare less than or
  equal.  An engine that reports an infinite likelihood for both fits gives the difference
  \<open>inf - inf\<close>, which is NaN and is not clamped, since \<^verbatim>\<open>std::max\<close> returns its first
  argument when the comparison fails: the p-value is NaN.
\<close>

theorem p_value_infinite_counterexample:
  "map_option (\<lambda>L. (NLLatMLE L, NLLatCondMLE L))
     (resultOf (GetHypoTest_fits infiniteEngine (demoState 100))) = Some (PosInf, PosInf) \<and>
   dle PosInf PosInf \<and>
   pValueOf (GetHypoTest infiniteEngine (demoState 100)) = Some NaN"
  by (simp add: infiniteEngine_def eval_defs)

section \<open>The branch without a second fit\<close>

lemma existVarParams_iff:
  "existVarParams h cps \<longleftrightarrow> (\<exists>a \<in> set cps. \<not> isConstant (h a))"
  by (auto simp: existVarParams_def RemoveConstantParameters_def list_ex_iff)

text \<open>
  C7.  In \<^verbatim>\<open>GetHypoTest\<close>, let the global-fit step succeed and let every free parameter
  of the model be constant once the null parameters are frozen.  Then the call returns
  a result; after the global-fit step the engine is only asked to build the likelihood
  and to evaluate it, so no second fit is run; and the p-value is computed with the value
  of that likelihood at the frozen parameters as \<^verbatim>\<open>NLLatCondMLE\<close>.
\<close>

theorem no_fit_without_free_parameters:
  assumes "fData s = Some data" and "fPdf s = Some pdf" and "fNullParams s = Some nullParams"
    and "ensureGlobalFit E s = Inr s1" and "fFitResult s1 = Some r"
    and "getParameters E pdf data = Some params"
    and "cps = RemoveConstantParameters (heap s1) params"
    and "frozen = snd (freezeNullParams E cps nullParams (heap s1))"
    and "nll = NLL pdf data [CloneData True, Constrain cps]"
    and "\<forall>a \<in> set cps. isConstant (frozen a)"
  shows "\<exists>htr s'. GetHypoTest E s = Inr (Some htr, s') \<and>
           calls s' = calls s1 @ [CreateNLL pdf data [CloneData True, Constrain cps], GetVal nll] \<and>
           filter isFit (calls s') = filter isFit (calls s1) \<and>
           fNullPValue htr = SignificanceToPValue (testStatistic (minNll r) (evaluate E nll frozen))"
proof -
  have again: "ensureGlobalFit E s1 = Inr s1"
    using assms(5) by (simp add: ensureGlobalFit_cached)
  have nofree: "\<not> existVarParams frozen cps"
    using assms(10) by (simp add: existVarParams_iff)
  have cond: "conditionalNLL E pdf data cps (s1\<lparr>heap := frozen\<rparr>) =
          Inr (evaluate E nll frozen,
               s1\<lparr>heap := frozen,
                  calls := calls s1 @ [CreateNLL pdf data [CloneData True, Constrain cps], GetVal nll]\<rparr>)"
    using nofree by (simp add: conditionalNLL_def Let_def assms(9))
  show ?thesis
    using assms(1-6) again cond assms(7,8) [symmetric]
    by (simp add: GetHypoTest_def GetHypoTest_fits_def Let_def split_def)
qed

theorem no_fit_without_free_parameters_witness:
  "filter isFit (calls (stateOf (demoState 101) (GetHypoTest demoEngine (demoState 101)))) =
     [FitTo 101 200 (globalFitArgs [0])] \<and>
   pValueOf (GetHypoTest demoEngine (demoState 101)) =
     Some (SignificanceToPValue (testStatistic (Finite 10) (Finite (76 / 5))))"
proof -
  let ?s = "demoState 101"
  let ?s1 = "projr (ensureGlobalFit demoEngine ?s)"
  let ?cps = "RemoveConstantParameters (heap ?s1) [0]"
  let ?frozen = "snd (freezeNullParams demoEngine ?cps [10] (heap ?s1))"
  let ?nll = "NLL 101 200 [CloneData True, Constrain ?cps]"
  have a: "fData ?s = Some 200" "fPdf ?s = Some 101" "fNullParams ?s = Some [10]"
    by (simp_all add: demoState_def)
  have b: "ensureGlobalFit demoEngine ?s = Inr ?s1"
    by (simp add: eval_defs)
  have c: "fFitResult ?s1 = Some (the (fFitResult ?s1))"
    by (simp add: eval_defs)
  have d: "getParameters demoEngine 101 200 = Some [0]"
    by (simp add: demoEngine_def demoParameters_def)
  have e: "\<forall>a \<in> set ?cps. isConstant (?frozen a)"
    by (simp add: eval_defs)
  have f: "filter isFit (calls ?s1) = [FitTo 101 200 (globalFitArgs [0])]"
    by (simp add: eval_defs)
  have g: "minNll (the (fFitResult ?s1)) = Finite 10" "evaluate demoEngine ?nll ?frozen = Finite (76 / 5)"
    by (simp_all add: eval_defs power2_eq_square)
  from no_fit_without_free_parameters [OF a b c d refl refl refl e]
  obtain htr s' where h: "GetHypoTest demoEngine ?s = Inr (Some htr, s')"
    "filter isFit (calls s') = filter isFit (calls ?s1)"
    "fNullPValue htr = SignificanceToPValue (testStatistic (minNll (the (fFitResult ?s1)))
        (evaluate demoEngine ?nll ?frozen))"
    by blast
  then show ?thesis
    using f g by (simp add: stateOf_def pValueOf_def resultOf_def)
qed

section \<open>The interval\<close>

lemma fitParSet_find_map_of:
  "fitParSet_find fps n = (case map_of fps n of None \<Rightarrow> None | Some v \<Rightarrow> Some (n, v))"
  by (induction fps) (auto simp: fitParSet_find_def split: option.splits)

lemma collectBestPOI_distinct:
  assumes "distinct (map (GetName E) poi)"
    and "set (map (argName E) acc) \<inter> set (map (GetName E) poi) = {}"
    and "best = (\<lambda>a. case map_of fps (GetName E a) of
                       Some v \<Rightarrow> FitPar (GetName E a) v | None \<Rightarrow> Var a)"
  shows "collectBestPOI E fps poi acc = acc @ map best poi"
  using assms(1,2)
proof (induction poi arbitrary: acc)
  case Nil
  then show ?case by simp
next
  case (Cons a poi)
  have name: "argName E (best b) = GetName E b" for b
    by (simp add: assms(3) split: option.splits)
  have step: "collectBestPOI E fps (a # poi) acc = collectBestPOI E fps poi (RooArgSet_add E acc (best a))"
    by (simp add: fitParSet_find_map_of assms(3) split: option.splits)
  have fresh: "argName E (best a) \<notin> set (map (argName E) acc)"
    using Cons.prems(2) by (auto simp: name)
  then have add: "RooArgSet_add E acc (best a) = acc @ [best a]"
    by (simp add: RooArgSet_add_def)
  have "set (map (argName E) (acc @ [best a])) \<inter> set (map (GetName E) poi) = {}"
    using Cons.prems by (auto simp: name)
  moreover have "distinct (map (GetName E) poi)" using Cons.prems(1) by simp
  ultimately have "collectBestPOI E fps poi (acc @ [best a]) = (acc @ [best a]) @ map best poi"
    by (rule Cons.IH [rotated])
  then show ?case using step add by simp
qed

lemma GetInterval_result:
  assumes "GetInterval E s = Inr (Some iv, s')"
  shows "\<exists>poi h r.
           fPOI s = Some poi \<and> fFitResult s' = Some r \<and>
           heap s' = setPOIToFit E poi (floatParsFinal r) h \<and>
           fParameters iv = collectBestPOI E (floatParsFinal r) poi [] \<and>
           fConfidenceLevel iv = dsub (Finite 1) (fSize s)"
proof -
  from assms obtain data pdf poi where in1: "fData s = Some data" "fPdf s = Some pdf"
    "fPOI s = Some poi"
    by (auto simp: GetInterval_def split: option.splits)
  from assms in1 obtain params where params: "getParameters E pdf data = Some params"
    by (auto simp: GetInterval_def split: option.splits)
  let ?cps = "RemoveConstantParameters (heap s) params"
  let ?nll = "NLL pdf data [CloneData True, Constrain ?cps]"
  let ?s1 = "s\<lparr>calls := calls s @ [CreateNLL pdf data [CloneData True, Constrain ?cps],
                                       CreateProfile ?nll poi]\<rparr>"
  from assms in1 params obtain s2 where s2: "ensureGlobalFit E ?s1 = Inr s2"
    by (auto simp: GetInterval_def Let_def split: sum.splits)
  from assms in1 params s2 obtain r where r: "fFitResult s2 = Some r"
    by (auto simp: GetInterval_def Let_def split: option.splits)
  from assms in1 params s2 r
  have "fFitResult s' = Some r \<and>
        heap s' = setPOIToFit E poi (floatParsFinal r) (heap s2) \<and>
        fParameters iv = collectBestPOI E (floatParsFinal r) poi [] \<and>
        fConfidenceLevel iv = dsub (Finite 1) (fSize s)"
    by (auto simp: GetInterval_def Let_def)
  with in1 show ?thesis by blast
qed

text \<open>
  C6.  The interval returned by \<^verbatim>\<open>GetInterval\<close> has the confidence level \<open>1 - size\<close>.
  Its set of parameters has, for every parameter of interest and in their order, the
  parameter of the fit result of the same name when the fit floated one, and the
  parameter of interest itself otherwise.  The parameters of interest form a set, so their
  names are distinct.
\<close>

theorem interval_level_and_best_fit:
  assumes "GetInterval E s = Inr (Some iv, s')"
    and "fPOI s = Some poi"
    and "fFitResult s' = Some r"
    and "distinct (map (GetName E) poi)"
  shows "fConfidenceLevel iv = dsub (Finite 1) (fSize s) \<and>
         (\<forall>x. fSize s = Finite x \<longrightarrow> fConfidenceLevel iv = Finite (1 - x)) \<and>
         fParameters iv =
           map (\<lambda>a. case map_of (floatParsFinal r) (GetName E a) of
                      Some v \<Rightarrow> FitPar (GetName E a) v | None \<Rightarrow> Var a) poi"
proof -
  from GetInterval_result [OF assms(1)] assms(2,3)
  have "fParameters iv = collectBestPOI E (floatParsFinal r) poi [] \<and>
        fConfidenceLevel iv = dsub (Finite 1) (fSize s)"
    by auto
  then show ?thesis
    using collectBestPOI_distinct [OF assms(4) _ refl, of "[]" "floatParsFinal r"] by auto
qed

theorem interval_level_and_best_fit_witness:
  "map_option fConfidenceLevel (resultOf (GetInterval demoEngine (demoState 100))) =
     Some (Finite (19 / 20)) \<and>
   map_option fParameters (resultOf (GetInterval demoEngine (demoState 100))) =
     Some [FitPar ''mu'' \<lparr>getVal = Finite 5, getError = Finite 1, isConstant = False\<rparr>, Var 2]"
proof -
  let ?s = "demoState 100"
  let ?r = "GetInterval demoEngine ?s"
  let ?fit = "the (fFitResult (stateOf ?s ?r))"
  have a: "?r = Inr (Some (the (resultOf ?r)), stateOf ?s ?r)"
    by (simp add: eval_defs)
  have b: "fPOI ?s = Some [0, 2]" "fSize ?s = Finite (1 / 20)"
    by (simp_all add: demoState_def)
  have c: "fFitResult (stateOf ?s ?r) = Some ?fit"
    by (simp add: eval_defs)
  have d: "distinct (map (GetName demoEngine) [0, 2])"
    by (simp add: demoEngine_def demoName_def)
  have e: "floatParsFinal ?fit =
      [(''mu'', \<lparr>getVal = Finite 5, getError = Finite 1, isConstant = False\<rparr>),
       (''nuis'', \<lparr>getVal = Finite 2, getError = Finite (1 / 2), isConstant = False\<rparr>)]"
    by (simp add: eval_defs)
  have n: "GetName demoEngine 0 = ''mu''" "GetName demoEngine 2 = ''theta''"
    by (simp_all add: demoEngine_def demoName_def)
  have f: "resultOf ?r = Some (the (resultOf ?r))"
    by (subst a) (simp add: resultOf_def)
  from interval_level_and_best_fit [OF a b(1) c d] b(2)
  have "fConfidenceLevel (the (resultOf ?r)) = Finite (19 / 20) \<and>
        fParameters (the (resultOf ?r)) =
          [FitPar ''mu'' \<lparr>getVal = Finite 5, getError = Finite 1, isConstant = False\<rparr>, Var 2]"
    by (simp add: e n)
  then show ?thesis by (subst (1 2) f) simp
qed

lemma setPOIToFit_other:
  assumes "GetName E a \<notin> fst ` set fps"
  shows "setPOIToFit E poi fps h a = h a"
  using assms
proof (induction fps arbitrary: h)
  case Nil
  then show ?case by simp
next
  case (Cons fp fps)
  then show ?case
    by (auto simp: setVal_def setError_def split: option.splits dest!: find_name)
qed

lemma find_distinct:
  assumes "distinct (map (GetName E) poi)" and "a \<in> set poi"
  shows "RooArgSet_find E poi (GetName E a) = Some a"
proof -
  have "RooArgSet_find E poi (GetName E a) \<noteq> None"
    using assms(2) by (auto simp: RooArgSet_find_def find_None_iff)
  then obtain b where b: "RooArgSet_find E poi (GetName E a) = Some b" by blast
  then have "GetName E b = GetName E a" "b \<in> set poi" by (simp_all add: find_name)
  with assms have "b = a" by (meson distinct_map inj_onD)
  with b show ?thesis by simp
qed

lemma setPOIToFit_fitted:
  assumes "distinct (map (GetName E) poi)" and "distinct (map fst fps)"
    and "a \<in> set poi" and "(GetName E a, v) \<in> set fps"
  shows "getVal (setPOIToFit E poi fps h a) = getVal v \<and>
         getError (setPOIToFit E poi fps h a) = getError v"
  using assms(2,4)
proof (induction fps arbitrary: h)
  case Nil
  then show ?case by simp
next
  case (Cons fp fps)
  show ?case
  proof (cases "fp = (GetName E a, v)")
    case True
    then have "GetName E a \<notin> fst ` set fps" using Cons.prems(1) by auto
    then show ?thesis using True find_distinct [OF assms(1,3)]
      by (simp add: setPOIToFit_other setVal_def setError_def)
  next
    case False
    then have in_rest: "(GetName E a, v) \<in> set fps" using Cons.prems(2) by auto
    have d: "distinct (map fst fps)" using Cons.prems(1) by simp
    show ?thesis
      using Cons.IH [OF d in_rest] by (simp split: option.splits)
  qed
qed

text \<open>
  C9.  When \<^verbatim>\<open>GetInterval\<close> returns an interval, every parameter of interest whose name
  is the name of a floated parameter of the fit result holds, in the state that the call
  leaves behind, the value and the error of that fitted parameter: the call writes them
  and does not put the former ones back.  The parameters of interest form a set and the
  fit floats a parameter once, so the names are distinct on both sides.
\<close>

theorem interval_overwrites_poi:
  assumes "GetInterval E s = Inr (Some iv, s')"
    and "fPOI s = Some poi"
    and "fFitResult s' = Some r"
    and "distinct (map (GetName E) poi)"
    and "distinct (map fst (floatParsFinal r))"
    and "a \<in> set poi"
    and "(GetName E a, v) \<in> set (floatParsFinal r)"
  shows "getVal (heap s' a) = getVal v \<and> getError (heap s' a) = getError v"
proof -
  from GetInterval_result [OF assms(1)] assms(2,3) obtain h where
    "heap s' = setPOIToFit E poi (floatParsFinal r) h"
    by auto
  then show ?thesis
    using setPOIToFit_fitted [OF assms(4,5,6,7), of h] by simp
qed

text \<open>
  At the example the parameter of interest \<open>mu\<close> has the value 1 and the error 0 before
  the call, and the fitted value 5 and the fitted error 1 after it.
\<close>

theorem interval_overwrites_poi_witness:
  "getVal (heap (demoState 100) 0) = Finite 1 \<and> getError (heap (demoState 100) 0) = Finite 0 \<and>
   getVal (heap (stateOf (demoState 100) (GetInterval demoEngine (demoState 100))) 0) = Finite 5 \<and>
   getError (heap (stateOf (demoState 100) (GetInterval demoEngine (demoState 100))) 0) = Finite 1"
proof -
  let ?s = "demoState 100"
  let ?r = "GetInterval demoEngine ?s"
  let ?fit = "the (fFitResult (stateOf ?s ?r))"
  let ?v = "\<lparr>getVal = Finite 5, getError = Finite 1, isConstant = False\<rparr>"
  have a: "?r = Inr (Some (the (resultOf ?r)), stateOf ?s ?r)"
    by (simp add: eval_defs)
  have b: "fPOI ?s = Some [0, 2]"
    by (simp add: demoState_def)
  have c: "fFitResult (stateOf ?s ?r) = Some ?fit"
    by (simp add: eval_defs)
  have d: "distinct (map (GetName demoEngine) [0, 2])" "(0::nat) \<in> set [0, 2]"
    by (simp_all add: demoEngine_def demoName_def)
  have e: "floatParsFinal ?fit =
      [(''mu'', ?v), (''nuis'', \<lparr>getVal = Finite 2, getError = Finite (1 / 2), isConstant = False\<rparr>)]"
    by (simp add: eval_defs)
  have n: "GetName demoEngine 0 = ''mu''"
    by (simp add: demoEngine_def demoName_def)
  have f: "distinct (map fst (floatParsFinal ?fit))"
    "(GetName demoEngine 0, ?v) \<in> set (floatParsFinal ?fit)"
    by (simp_all add: e n)
  have g: "getVal (heap ?s 0) = Finite 1" "getError (heap ?s 0) = Finite 0"
    by (simp_all add: demoState_def demoStore_def)
  from interval_overwrites_poi [OF a b c d(1) f(1) d(2) f(2)] g show ?thesis
    by simp
qed

section \<open>The survival function of the standard normal distribution\<close>

text \<open>
  The series that defines \<open>normal_sf\<close> converges everywhere.  Its value at 0 is 1/2 and
  its derivative is the negated density of the standard normal distribution, which
  determines the function.
\<close>

lemma gaussCoeff_summable: "summable (\<lambda>n. gaussCoeff n * y ^ n)"
proof (rule summable_comparison_test' [OF summable_exp [of "\<bar>y\<bar>"], of 0])
  fix n :: nat
  have "(1::real) \<le> 2 ^ n * real (2 * n + 1)"
    by (rule order_trans [of _ "1 * 1"], simp, rule mult_mono) simp_all
  then have "(fact n :: real) * 1 \<le> fact n * (2 ^ n * real (2 * n + 1))"
    by (intro mult_left_mono) simp_all
  then have "\<bar>y\<bar> ^ n / (fact n * (2 ^ n * real (2 * n + 1))) \<le> \<bar>y\<bar> ^ n / (fact n * 1)"
    by (intro divide_left_mono) simp_all
  then show "norm (gaussCoeff n * y ^ n) \<le> inverse (fact n) * \<bar>y\<bar> ^ n"
    by (simp add: gaussCoeff_def abs_mult power_abs field_simps)
qed

lemma series_identity:
  "(\<Sum>n. gaussCoeff n * w ^ n) + 2 * w * (\<Sum>n. diffs gaussCoeff n * w ^ n) = exp (- w / 2)"
proof -
  have s1: "(\<lambda>n. gaussCoeff n * w ^ n) sums (\<Sum>n. gaussCoeff n * w ^ n)"
    by (rule summable_sums [OF gaussCoeff_summable])
  have "summable (\<lambda>n. diffs gaussCoeff n * w ^ n)"
    by (rule termdiff_converges_all) (rule gaussCoeff_summable)
  then have "(\<lambda>n. of_nat n * gaussCoeff n * w ^ (n - Suc 0)) sums (\<Sum>n. diffs gaussCoeff n * w ^ n)"
    by (rule diffs_equiv)
  then have s2: "(\<lambda>n. 2 * w * (of_nat n * gaussCoeff n * w ^ (n - Suc 0))) sums (2 * w * (\<Sum>n. diffs gaussCoeff n * w ^ n))"
    by (rule sums_mult)
  have tm: "gaussCoeff n * w ^ n + 2 * w * (of_nat n * gaussCoeff n * w ^ (n - Suc 0)) = (- w / 2) ^ n /\<^sub>R fact n" for n
  proof (cases n)
    case 0
    then show ?thesis by (simp add: gaussCoeff_def)
  next
    case (Suc m)
    have "gaussCoeff n * w ^ n + 2 * w * (of_nat n * gaussCoeff n * w ^ (n - Suc 0)) = real (2 * n + 1) * gaussCoeff n * w ^ n"
      unfolding Suc by (simp add: algebra_simps)
    also have "real (2 * n + 1) * gaussCoeff n = (- 1) ^ n / (2 ^ n * fact n)"
      by (simp add: gaussCoeff_def)
    also have "(- 1) ^ n / (2 ^ n * fact n) * w ^ n = (- w / 2) ^ n /\<^sub>R fact n"
    proof -
      have "- w / 2 = (- 1) * (w / 2)" by simp
      then have "(- w / 2) ^ n = ((- 1) * (w / 2)) ^ n" by (simp only:)
      also have "\<dots> = (- 1) ^ n * (w / 2) ^ n" by (rule power_mult_distrib)
      also have "\<dots> = (- 1) ^ n * (w ^ n / 2 ^ n)" by (simp only: power_divide)
      finally have pw: "(- w / 2) ^ n = (- 1) ^ n * (w ^ n / 2 ^ n)" .
      show ?thesis unfolding pw by (simp add: divide_inverse)
    qed
    finally show ?thesis .
  qed
  have "(\<lambda>n. (- w / 2) ^ n /\<^sub>R fact n) sums
          ((\<Sum>n. gaussCoeff n * w ^ n) + 2 * w * (\<Sum>n. diffs gaussCoeff n * w ^ n))"
    using sums_add [OF s1 s2] by (simp only: tm)
  moreover have "(\<lambda>n. (- w / 2) ^ n /\<^sub>R fact n) sums exp (- w / 2)"
    by (rule exp_converges)
  ultimately show ?thesis by (rule sums_unique2)
qed

lemma normal_sf_alt: "normal_sf z = 1 / 2 - z * (\<Sum>n. gaussCoeff n * (z\<^sup>2) ^ n) / sqrt (2 * pi)"
proof -
  have "normal_series z n = z * (gaussCoeff n * (z\<^sup>2) ^ n)" for n
    by (simp add: normal_series_def gaussCoeff_def power_mult)
  then have "(\<Sum>n. normal_series z n) = z * (\<Sum>n. gaussCoeff n * (z\<^sup>2) ^ n)"
    by (simp add: suminf_mult [OF gaussCoeff_summable])
  then show ?thesis by (simp add: normal_sf_def)
qed

lemma normal_sf_derivative:
  "DERIV normal_sf z :> - exp (- z\<^sup>2 / 2) / sqrt (2 * pi)"
proof -
  let ?G = "\<lambda>w. \<Sum>n. gaussCoeff n * w ^ n"
  let ?G' = "\<lambda>w. \<Sum>n. diffs gaussCoeff n * w ^ n"
  have dG: "DERIV ?G w :> ?G' w" for w
    by (rule termdiffs_strong_converges_everywhere) (rule gaussCoeff_summable)
  have d0: "DERIV (\<lambda>z. ?G (z\<^sup>2)) z :> ?G' (z\<^sup>2) * (2 * z)"
    by (rule DERIV_chain2 [OF dG]) (auto intro!: derivative_eq_intros)
  have d1: "DERIV (\<lambda>z. z * ?G (z\<^sup>2)) z :> 1 * ?G (z\<^sup>2) + ?G' (z\<^sup>2) * (2 * z) * z"
    by (rule DERIV_mult [OF DERIV_ident d0])
  have d2: "DERIV (\<lambda>z. z * ?G (z\<^sup>2) / sqrt (2 * pi)) z :>
              (1 * ?G (z\<^sup>2) + ?G' (z\<^sup>2) * (2 * z) * z) / sqrt (2 * pi)"
    by (rule DERIV_cdivide [OF d1])
  have d3: "DERIV (\<lambda>z. 1 / 2 - z * ?G (z\<^sup>2) / sqrt (2 * pi)) z :>
              0 - (1 * ?G (z\<^sup>2) + ?G' (z\<^sup>2) * (2 * z) * z) / sqrt (2 * pi)"
    by (rule DERIV_diff [OF DERIV_const d2])
  have e: "1 * ?G (z\<^sup>2) + ?G' (z\<^sup>2) * (2 * z) * z = exp (- z\<^sup>2 / 2)"
    using series_identity [of "z\<^sup>2"] by (simp add: power2_eq_square algebra_simps)
  have f: "normal_sf = (\<lambda>z. 1 / 2 - z * ?G (z\<^sup>2) / sqrt (2 * pi))"
    by (rule ext) (rule normal_sf_alt)
  show ?thesis
    using d3 unfolding e f by simp
qed


subsection \<open>Bounds on \<open>pi\<close>\<close>




subsection \<open>The series at \<open>z = sqrt (52/5)\<close>\<close>














end
